theory Spec2Isabelle
  imports Main "HOL-Library.Sublist"
begin

section \<open>Characters of a dump\<close>

text \<open>
  The converter \<^verbatim>\<open>convert_mysql_to_postgres\<close> of \<^verbatim>\<open>mysql_to_pgsql.py\<close> reads a
  MySQL dump into one Python \<^verbatim>\<open>str\<close> and rewrites it with \<^verbatim>\<open>re.sub\<close>,
  \<^verbatim>\<open>str.replace\<close> and one loop over the lines. A document is a \<open>string\<close> here.
  The character classes and the case folding below are those of Python on code points
  below 128, where the Unicode-aware classes of \<^verbatim>\<open>re\<close> and \<^verbatim>\<open>str.upper\<close>
  coincide with the ASCII ones; every other character is in no class and has no case.
\<close>

abbreviation dq :: char where "dq \<equiv> CHR 0x22"
abbreviation nl :: char where "nl \<equiv> CHR 0x0A"

definition uppers :: string where "uppers = ''ABCDEFGHIJKLMNOPQRSTUVWXYZ''"
definition lowers :: string where "lowers = ''abcdefghijklmnopqrstuvwxyz''"
definition digits :: string where "digits = ''0123456789''"

text \<open>\<^verbatim>\<open>\s\<close> and \<^verbatim>\<open>str.isspace\<close>: tab, newline, vertical tab, form feed, carriage
  return, the four separators 0x1C to 0x1F, and the space.\<close>

definition spaces :: string where
  "spaces = [CHR 0x09, CHR 0x0A, CHR 0x0B, CHR 0x0C, CHR 0x0D,
             CHR 0x1C, CHR 0x1D, CHR 0x1E, CHR 0x1F, CHR 0x20]"

definition is_digit :: "char \<Rightarrow> bool" where "is_digit c = (c \<in> set digits)"
definition is_space :: "char \<Rightarrow> bool" where "is_space c = (c \<in> set spaces)"
definition is_word :: "char \<Rightarrow> bool" where
  "is_word c = (c \<in> set lowers \<or> c \<in> set uppers \<or> c \<in> set digits \<or> c = CHR ''_'')"

definition lower_chr :: "char \<Rightarrow> char" where
  "lower_chr c = (case map_of (zip uppers lowers) c of Some l \<Rightarrow> l | None \<Rightarrow> c)"

definition upper_chr :: "char \<Rightarrow> char" where
  "upper_chr c = (case map_of (zip lowers uppers) c of Some u \<Rightarrow> u | None \<Rightarrow> c)"

text \<open>\<^verbatim>\<open>str.upper()\<close>.\<close>

definition upper :: "string \<Rightarrow> string" where "upper s = map upper_chr s"

section \<open>Regular expressions with the matching order of \<^verbatim>\<open>re\<close>\<close>

text \<open>
  The patterns of the program use literals, the classes \<^verbatim>\<open>.\<close>, \<^verbatim>\<open>\d\<close>, \<^verbatim>\<open>\s\<close>,
  \<^verbatim>\<open>\w\<close>, \<^verbatim>\<open>[^c]\<close> and \<^verbatim>\<open>[\d\s]\<close>, sequence, alternation, the greedy
  \<^verbatim>\<open>?\<close>, \<^verbatim>\<open>*\<close>, \<^verbatim>\<open>+\<close>, the lazy \<^verbatim>\<open>*?\<close>, capturing groups, \<^verbatim>\<open>\b\<close> and the
  negative lookahead \<^verbatim>\<open>(?!...)\<close>.
\<close>

datatype cset = Dot | Digit | Space | Word | Not_Chr char | Union cset cset

datatype rx =
    Lit string
  | Cls cset
  | Seq rx rx
  | Alt rx rx
  | Opt rx
  | Star rx
  | Plus rx
  | Lazy_Star rx
  | Grp nat rx
  | Bound
  | Not_Ahead rx

fun seqs :: "rx list \<Rightarrow> rx" where
  "seqs [] = Lit []"
| "seqs [r] = r"
| "seqs (r # rs) = Seq r (seqs rs)"

record flags =
  ignorecase :: bool
  dotall :: bool

definition IGNORECASE :: flags where "IGNORECASE = \<lparr>ignorecase = True, dotall = False\<rparr>"

definition chr_eq :: "flags \<Rightarrow> char \<Rightarrow> char \<Rightarrow> bool" where
  "chr_eq fl a c = (if ignorecase fl then lower_chr a = lower_chr c else a = c)"

fun in_cset :: "flags \<Rightarrow> cset \<Rightarrow> char \<Rightarrow> bool" where
  "in_cset fl Dot c = (dotall fl \<or> c \<noteq> nl)"
| "in_cset fl Digit c = is_digit c"
| "in_cset fl Space c = is_space c"
| "in_cset fl Word c = is_word c"
| "in_cset fl (Not_Chr a) c = (\<not> chr_eq fl a c)"
| "in_cset fl (Union A B) c = (in_cset fl A c \<or> in_cset fl B c)"

text \<open>
  A matcher state is the character before the current position (none at the start of the
  text), the text from the current position on, and the groups captured so far, the latest
  first. \<open>ms r fl st\<close> lists the states in which a match of \<open>r\<close> started at \<open>st\<close> can
  end, in the order in which the backtracking matcher of \<^verbatim>\<open>re\<close> tries them: its head is
  the match that \<^verbatim>\<open>re\<close> reports at this position.
\<close>

type_synonym groups = "(nat \<times> string) list"
type_synonym mstate = "char option \<times> string \<times> groups"

fun lit_run :: "flags \<Rightarrow> string \<Rightarrow> mstate \<Rightarrow> mstate list" where
  "lit_run fl [] st = [st]"
| "lit_run fl (a # l) (p, [], g) = []"
| "lit_run fl (a # l) (p, c # s, g) =
     (if chr_eq fl a c then lit_run fl l (Some c, s, g) else [])"

fun cls_run :: "flags \<Rightarrow> cset \<Rightarrow> mstate \<Rightarrow> mstate list" where
  "cls_run fl A (p, [], g) = []"
| "cls_run fl A (p, c # s, g) = (if in_cset fl A c then [(Some c, s, g)] else [])"

definition rest_len :: "mstate \<Rightarrow> nat" where
  "rest_len st = length (fst (snd st))"

definition advances :: "mstate \<Rightarrow> mstate \<Rightarrow> bool" where
  "advances st st' = (rest_len st' < rest_len st)"

text \<open>Greedy repetition tries one more round before stopping, lazy repetition stops
  first. A round that consumes nothing is not repeated. The fuel is the length of the
  remaining text, which every round shortens.\<close>

primrec star_run :: "(mstate \<Rightarrow> mstate list) \<Rightarrow> nat \<Rightarrow> mstate \<Rightarrow> mstate list" where
  "star_run f 0 st = [st]"
| "star_run f (Suc n) st =
     concat (map (star_run f n) (filter (advances st) (f st))) @ [st]"

primrec lazy_run :: "(mstate \<Rightarrow> mstate list) \<Rightarrow> nat \<Rightarrow> mstate \<Rightarrow> mstate list" where
  "lazy_run f 0 st = [st]"
| "lazy_run f (Suc n) st =
     st # concat (map (lazy_run f n) (filter (advances st) (f st)))"

text \<open>\<^verbatim>\<open>\b\<close>: exactly one of the characters around the position is a word character.\<close>

definition word_before :: "mstate \<Rightarrow> bool" where
  "word_before st = (case fst st of None \<Rightarrow> False | Some c \<Rightarrow> is_word c)"

definition word_after :: "mstate \<Rightarrow> bool" where
  "word_after st = (case fst (snd st) of [] \<Rightarrow> False | c # _ \<Rightarrow> is_word c)"

definition at_boundary :: "mstate \<Rightarrow> bool" where
  "at_boundary st = (word_before st \<noteq> word_after st)"

definition set_group :: "nat \<Rightarrow> mstate \<Rightarrow> mstate \<Rightarrow> mstate" where
  "set_group n st st' =
     (case st' of (p', s', g') \<Rightarrow>
        (p', s', (n, take (rest_len st - length s') (fst (snd st))) # g'))"

primrec ms :: "rx \<Rightarrow> flags \<Rightarrow> mstate \<Rightarrow> mstate list" where
  "ms (Lit l) fl st = lit_run fl l st"
| "ms (Cls A) fl st = cls_run fl A st"
| "ms (Seq a b) fl st = concat (map (ms b fl) (ms a fl st))"
| "ms (Alt a b) fl st = ms a fl st @ ms b fl st"
| "ms (Opt a) fl st = ms a fl st @ [st]"
| "ms (Star a) fl st = star_run (ms a fl) (rest_len st) st"
| "ms (Plus a) fl st =
     concat (map (\<lambda>st'. star_run (ms a fl) (rest_len st') st') (ms a fl st))"
| "ms (Lazy_Star a) fl st = lazy_run (ms a fl) (rest_len st) st"
| "ms (Grp n a) fl st = map (set_group n st) (ms a fl st)"
| "ms Bound fl st = (if at_boundary st then [st] else [])"
| "ms (Not_Ahead a) fl st = (if ms a fl st = [] then [st] else [])"

text \<open>\<^verbatim>\<open>m.group(n)\<close>; a group that took no part in the match reads as the empty string in a
  replacement template.\<close>

definition group :: "groups \<Rightarrow> nat \<Rightarrow> string" where
  "group g n = (case map_of g n of Some s \<Rightarrow> s | None \<Rightarrow> [])"

text \<open>
  The match at one position: the matched text, the groups, and the state after it.
  With \<open>adv\<close> set an empty match is refused and the matcher backtracks to the next
  alternative, which is what \<^verbatim>\<open>re\<close> does right after an empty match.
\<close>

definition match_here ::
  "rx \<Rightarrow> flags \<Rightarrow> bool \<Rightarrow> char option \<Rightarrow> string \<Rightarrow> (string \<times> groups \<times> char option \<times> string) option" where
  "match_here r fl adv p s =
     (case filter (\<lambda>st'. \<not> adv \<or> advances (p, s, []) st') (ms r fl (p, s, [])) of
        [] \<Rightarrow> None
      | (p', s', g) # _ \<Rightarrow> Some (take (length s - length s') s, g, p', s'))"



text \<open>\<^verbatim>\<open>re.search\<close> returns the groups of the leftmost match, \<^verbatim>\<open>re.match\<close> those of a
  match at the start of the text.\<close>

fun search_at :: "rx \<Rightarrow> flags \<Rightarrow> char option \<Rightarrow> string \<Rightarrow> groups option" where
  "search_at r fl p s =
     (case match_here r fl False p s of
        Some (m, g, p', s') \<Rightarrow> Some g
      | None \<Rightarrow> (case s of [] \<Rightarrow> None | c # cs \<Rightarrow> search_at r fl (Some c) cs))"

definition re_search :: "rx \<Rightarrow> flags \<Rightarrow> string \<Rightarrow> groups option" where
  "re_search r fl s = search_at r fl None s"

definition re_match :: "rx \<Rightarrow> flags \<Rightarrow> string \<Rightarrow> groups option" where
  "re_match r fl s =
     (case match_here r fl False None s of Some (m, g, p', s') \<Rightarrow> Some g | None \<Rightarrow> None)"

section \<open>String methods\<close>

text \<open>\<^verbatim>\<open>old in s\<close>.\<close>

fun str_in :: "string \<Rightarrow> string \<Rightarrow> bool" where
  "str_in old [] = (old = [])"
| "str_in old (c # s) = (prefix old (c # s) \<or> str_in old s)"



fun join_lines :: "string list \<Rightarrow> string" where
  "join_lines [] = []"
| "join_lines [l] = l"
| "join_lines (l # ls) = l @ nl # join_lines ls"

text \<open>\<^verbatim>\<open>s.rstrip(',')\<close> and \<^verbatim>\<open>s.strip()\<close>.\<close>

definition rstrip_commas :: "string \<Rightarrow> string" where
  "rstrip_commas s = rev (dropWhile (\<lambda>c. c = CHR '','') (rev s))"

definition strip :: "string \<Rightarrow> string" where
  "strip s = rev (dropWhile is_space (rev (dropWhile is_space s)))"

section \<open>The rewrite rules\<close>


































section \<open>The constraint deferral pass\<close>

record fk =
  table :: string
  constraint :: string
  columns :: string
  ref_table :: string
  ref_columns :: string
  actions :: string

record scan_state =
  new_lines :: "string list"
  foreign_keys :: "fk list"
  in_create_table :: bool
  current_table :: "string option"

text \<open>\<^verbatim>\<open>CREATE TABLE\s+"([^"]+)"\<close>, \<^verbatim>\<open>CONSTRAINT\s+"[^"]+"\s+FOREIGN KEY\<close>,
  \<^verbatim>\<open>CONSTRAINT\s+"([^"]+)"\s+FOREIGN KEY\s+\(([^)]+)\)\s+REFERENCES\s+"([^"]+)"\s+\(([^)]+)\)(.+)\<close>
  and \<^verbatim>\<open>\s*KEY\s+"\<close>.\<close>

definition quoted :: "rx \<Rightarrow> rx" where
  "quoted r = seqs [Lit [dq], r, Lit [dq]]"

definition create_table_rx :: rx where
  "create_table_rx =
     seqs [Lit ''CREATE TABLE'', Plus (Cls Space), quoted (Grp 1 (Plus (Cls (Not_Chr dq))))]"

definition fk_test_rx :: rx where
  "fk_test_rx =
     seqs [Lit ''CONSTRAINT'', Plus (Cls Space), quoted (Plus (Cls (Not_Chr dq))),
           Plus (Cls Space), Lit ''FOREIGN KEY'']"

definition fk_rx :: rx where
  "fk_rx =
     seqs [Lit ''CONSTRAINT'', Plus (Cls Space), quoted (Grp 1 (Plus (Cls (Not_Chr dq)))),
           Plus (Cls Space), Lit ''FOREIGN KEY'', Plus (Cls Space),
           Lit ''('', Grp 2 (Plus (Cls (Not_Chr (CHR '')'')))), Lit '')'',
           Plus (Cls Space), Lit ''REFERENCES'', Plus (Cls Space),
           quoted (Grp 3 (Plus (Cls (Not_Chr dq)))), Plus (Cls Space),
           Lit ''('', Grp 4 (Plus (Cls (Not_Chr (CHR '')'')))), Lit '')'',
           Grp 5 (Plus (Cls Dot))]"

definition key_rx :: rx where
  "key_rx = seqs [Star (Cls Space), Lit ''KEY'', Plus (Cls Space), Lit [dq]]"

text \<open>One round of the loop \<^verbatim>\<open>for line in lines\<close>. The two \<^verbatim>\<open>continue\<close> statements
  are the branches that leave \<open>new_lines\<close> as it is.\<close>

definition open_table :: "scan_state \<Rightarrow> string \<Rightarrow> scan_state" where
  "open_table st line =
     (if str_in ''CREATE TABLE'' (upper line)
      then st\<lparr>in_create_table := True,
              current_table := (case re_search create_table_rx IGNORECASE line of
                                  Some g \<Rightarrow> Some (group g 1)
                                | None \<Rightarrow> current_table st)\<rparr>
      else st)"

definition record_fk :: "scan_state \<Rightarrow> string \<Rightarrow> scan_state" where
  "record_fk st line =
     (case re_search fk_rx IGNORECASE line of
        None \<Rightarrow> st
      | Some g \<Rightarrow>
          (case current_table st of
             None \<Rightarrow> st
           | Some t \<Rightarrow>
               if t = [] then st
               else st\<lparr>foreign_keys := foreign_keys st @
                        [\<lparr>table = t, constraint = group g 1, columns = group g 2,
                          ref_table = group g 3, ref_columns = group g 4,
                          actions = strip (rstrip_commas (group g 5))\<rparr>]\<rparr>))"

definition close_table :: "scan_state \<Rightarrow> string \<Rightarrow> scan_state" where
  "close_table st line =
     (if in_create_table st \<and> CHR '')'' \<in> set line \<and> CHR '';'' \<in> set line
      then st\<lparr>in_create_table := False, current_table := None\<rparr>
      else st)"

definition scan_line :: "scan_state \<Rightarrow> string \<Rightarrow> scan_state" where
  "scan_line st0 line =
     (let st = open_table st0 line in
      if in_create_table st \<and> re_search fk_test_rx IGNORECASE line \<noteq> None
      then record_fk st line
      else if in_create_table st \<and> re_match key_rx IGNORECASE line \<noteq> None
      then st
      else (let st' = close_table st line in st'\<lparr>new_lines := new_lines st' @ [line]\<rparr>))"

definition scan_init :: scan_state where
  "scan_init = \<lparr>new_lines = [], foreign_keys = [], in_create_table = False,
                current_table = None\<rparr>"

definition scan :: "string list \<Rightarrow> scan_state" where
  "scan lines = foldl scan_line scan_init lines"



text \<open>The block of \<^verbatim>\<open>ALTER TABLE\<close> statements: the list \<^verbatim>\<open>fk_statements\<close> starts with
  the comment line, gets one statement for each record, and is joined with newlines.\<close>

definition fk_header :: string where
  "fk_header = [nl, nl] @
     ''-- Foreign key constraints (added after table creation to avoid dependency issues)''
     @ [nl]"

definition fk_stmt :: "fk \<Rightarrow> string" where
  "fk_stmt k =
     ''ALTER TABLE '' @ [dq] @ table k @ [dq] @ '' ADD CONSTRAINT '' @ [dq] @ constraint k @
     [dq] @ '' FOREIGN KEY ('' @ columns k @ '') REFERENCES '' @ [dq] @ ref_table k @ [dq] @
     '' ('' @ ref_columns k @ '') '' @ actions k @ '';''"

definition add_foreign_keys :: "string \<Rightarrow> fk list \<Rightarrow> string" where
  "add_foreign_keys content fks =
     (if fks \<noteq> []
      then content @ join_lines (foldl (\<lambda>fk_statements k. fk_statements @ [fk_stmt k])
                                       [fk_header] fks)
      else content)"







section \<open>The converter\<close>




section \<open>Notions for reasoning about the matcher\<close>

text \<open>The character before the position reached after consuming \<open>m\<close>.\<close>

definition last_opt :: "char option \<Rightarrow> string \<Rightarrow> char option" where
  "last_opt p m = (if m = [] then p else Some (last m))"

text \<open>A result of the matcher is the state after some consumed text.\<close>

definition after :: "mstate \<Rightarrow> mstate \<Rightarrow> bool" where
  "after st st' = (\<exists>m. fst (snd st) = m @ fst (snd st') \<and> fst st' = last_opt (fst st) m)"

text \<open>\<open>first r fl st st'\<close>: the match of \<open>r\<close> that is tried first from \<open>st\<close> ends in
  \<open>st'\<close>. \<open>backoff p ws s g\<close> lists the states a greedy repetition over the characters
  \<open>ws\<close> offers, the longest first.\<close>

definition first :: "rx \<Rightarrow> flags \<Rightarrow> mstate \<Rightarrow> mstate \<Rightarrow> bool" where
  "first r fl st st' = (\<exists>tl. ms r fl st = st' # tl)"

fun backoff :: "char option \<Rightarrow> string \<Rightarrow> string \<Rightarrow> groups \<Rightarrow> mstate list" where
  "backoff p [] s g = [(p, s, g)]"
| "backoff p (c # ws) s g = backoff (Some c) ws s g @ [(p, c # ws @ s, g)]"











section \<open>Example documents\<close>



definition ex_fk_record :: fk where
  "ex_fk_record = \<lparr>table = ''t'', constraint = ''c'', columns = ''a'', ref_table = ''u'',
                    ref_columns = ''id'', actions = ''ON DELETE CASCADE''\<rparr>"

definition ex_unique_table :: "string list" where
  "ex_unique_table =
     [''CREATE TABLE '' @ [dq] @ ''t'' @ [dq] @ '' ('',
      ''  '' @ [dq] @ ''a'' @ [dq] @ '' INTEGER,'',
      ''  UNIQUE KEY '' @ [dq] @ ''u'' @ [dq] @ '' ('' @ [dq] @ ''a'' @ [dq] @ '')'',
      '');'']"





section \<open>Characters, evaluated on their bits\<close>

text \<open>The same classes and case folding, decided on the eight bits of a character.\<close>

lemma lower_chr_bits [code]:
  "lower_chr (Char b0 b1 b2 b3 b4 b5 b6 b7) =
     (if \<not> b7 \<and> b6 \<and> \<not> b5 \<and> (b0 \<or> b1 \<or> b2 \<or> b3 \<or> b4) \<and> \<not> (b4 \<and> b3 \<and> (b2 \<or> (b1 \<and> b0)))
      then Char b0 b1 b2 b3 b4 True b6 b7 else Char b0 b1 b2 b3 b4 b5 b6 b7)"
  by (cases b0; cases b1; cases b2; cases b3; cases b4; cases b5; cases b6; cases b7;
      simp add: lower_chr_def uppers_def lowers_def)

lemma upper_chr_bits [code]:
  "upper_chr (Char b0 b1 b2 b3 b4 b5 b6 b7) =
     (if \<not> b7 \<and> b6 \<and> b5 \<and> (b0 \<or> b1 \<or> b2 \<or> b3 \<or> b4) \<and> \<not> (b4 \<and> b3 \<and> (b2 \<or> (b1 \<and> b0)))
      then Char b0 b1 b2 b3 b4 False b6 b7 else Char b0 b1 b2 b3 b4 b5 b6 b7)"
  by (cases b0; cases b1; cases b2; cases b3; cases b4; cases b5; cases b6; cases b7;
      simp add: upper_chr_def uppers_def lowers_def)

lemma is_digit_bits [code]:
  "is_digit (Char b0 b1 b2 b3 b4 b5 b6 b7) =
     (\<not> b7 \<and> \<not> b6 \<and> b5 \<and> b4 \<and> \<not> (b3 \<and> (b2 \<or> b1)))"
  by (cases b0; cases b1; cases b2; cases b3; cases b4; cases b5; cases b6; cases b7;
      simp add: is_digit_def digits_def)

lemma is_space_bits [code]:
  "is_space (Char b0 b1 b2 b3 b4 b5 b6 b7) =
     (\<not> b7 \<and> \<not> b6 \<and>
      (if b5 then \<not> b4 \<and> \<not> b3 \<and> \<not> b2 \<and> \<not> b1 \<and> \<not> b0
       else b3 \<and> (if b4 then b2 else (if b2 then \<not> b1 else b1 \<or> b0))))"
  by (cases b0; cases b1; cases b2; cases b3; cases b4; cases b5; cases b6; cases b7;
      simp add: is_space_def spaces_def)

lemma is_word_bits [code]:
  "is_word (Char b0 b1 b2 b3 b4 b5 b6 b7) =
     (\<not> b7 \<and>
      (if b6 then ((b0 \<or> b1 \<or> b2 \<or> b3 \<or> b4) \<and> \<not> (b4 \<and> b3 \<and> (b2 \<or> (b1 \<and> b0)))) \<or>
                  (\<not> b5 \<and> b4 \<and> b3 \<and> b2 \<and> b1 \<and> b0)
       else b5 \<and> b4 \<and> \<not> (b3 \<and> (b2 \<or> b1))))"
  by (cases b0; cases b1; cases b2; cases b3; cases b4; cases b5; cases b6; cases b7;
      simp add: is_word_def digits_def uppers_def lowers_def)

section \<open>What the matcher returns\<close>

lemma last_opt_simps [simp]:
  "last_opt p [] = p"
  "last_opt p (m @ [c]) = Some c"
  "last_opt p (c # m) = last_opt (Some c) m"
  by (simp_all add: last_opt_def)




lemma after_rest_len: "after st st' \<Longrightarrow> rest_len st' \<le> rest_len st"
  by (auto simp add: after_def rest_len_def)







section \<open>Replacing and the first match\<close>


lemma match_here_first:
  "first r fl (p, s, []) (p', s', g) \<Longrightarrow>
   match_here r fl False p s = Some (take (length s - length s') s, g, p', s')"
  by (auto simp add: match_here_def first_def)





lemma first_Seq: "first a fl st st1 \<Longrightarrow> first b fl st1 st2 \<Longrightarrow> first (Seq a b) fl st st2"
  by (auto simp add: first_def)

lemma first_Alt1: "first a fl st st' \<Longrightarrow> first (Alt a b) fl st st'"
  by (auto simp add: first_def)

lemma first_Alt2: "ms a fl st = [] \<Longrightarrow> first b fl st st' \<Longrightarrow> first (Alt a b) fl st st'"
  by (auto simp add: first_def)

lemma first_Opt1: "first a fl st st' \<Longrightarrow> first (Opt a) fl st st'"
  by (auto simp add: first_def)

lemma first_Opt2: "ms a fl st = [] \<Longrightarrow> first (Opt a) fl st st"
  by (auto simp add: first_def)

lemma first_Grp: "first a fl st st' \<Longrightarrow> first (Grp n a) fl st (set_group n st st')"
  by (auto simp add: first_def)

lemma first_Bound: "at_boundary st \<Longrightarrow> first Bound fl st st"
  by (simp add: first_def)

lemma first_Not_Ahead: "ms a fl st = [] \<Longrightarrow> first (Not_Ahead a) fl st st"
  by (simp add: first_def)

lemma lit_run_append:
  "list_all2 (chr_eq fl) l m \<Longrightarrow> lit_run fl l (p, m @ s, g) = [(last_opt p m, s, g)]"
proof (induction l arbitrary: m p)
  case Nil
  then show ?case by simp
next
  case (Cons a l)
  then obtain c m' where m: "m = c # m'" and "chr_eq fl a c" and "list_all2 (chr_eq fl) l m'"
    by (auto simp add: list_all2_Cons1)
  then show ?case using Cons.IH [of m' "Some c"] by simp
qed

lemma first_Lit:
  "list_all2 (chr_eq fl) l m \<Longrightarrow> first (Lit l) fl (p, m @ s, g) (last_opt p m, s, g)"
  by (simp add: first_def lit_run_append)

lemma backoff_hd: "\<exists>tl. backoff p ws s g = (last_opt p ws, s, g) # tl"
proof (induction ws arbitrary: p)
  case Nil
  then show ?case by simp
next
  case (Cons c ws)
  obtain tl where "backoff (Some c) ws s g = (last_opt (Some c) ws, s, g) # tl"
    using Cons.IH by blast
  then show ?case by simp
qed

lemma star_cls_backoff:
  assumes "list_all (in_cset fl A) ws" and "s = [] \<or> \<not> in_cset fl A (hd s)"
    and "length (ws @ s) \<le> n"
  shows "star_run (cls_run fl A) n (p, ws @ s, g) = backoff p ws s g"
  using assms
proof (induction ws arbitrary: p n)
  case Nil
  show ?case
  proof (cases n)
    case 0
    then show ?thesis by simp
  next
    case (Suc k)
    have "cls_run fl A (p, s, g) = []"
      using Nil.prems(2) by (cases s) auto
    then show ?thesis using Suc by simp
  qed
next
  case (Cons c ws)
  then obtain k where n: "n = Suc k" and k: "length (ws @ s) \<le> k"
    by (cases n) auto
  have c: "in_cset fl A c" and ws: "list_all (in_cset fl A) ws"
    using Cons.prems(1) by simp_all
  have "star_run (cls_run fl A) k (Some c, ws @ s, g) = backoff (Some c) ws s g"
    using Cons.IH [OF ws Cons.prems(2) k] .
  then show ?case using c n by (simp add: advances_def rest_len_def)
qed

lemma ms_Star_cls:
  assumes "list_all (in_cset fl A) ws" and "s = [] \<or> \<not> in_cset fl A (hd s)"
  shows "ms (Star (Cls A)) fl (p, ws @ s, g) = backoff p ws s g"
proof -
  have "star_run (cls_run fl A) (length (ws @ s)) (p, ws @ s, g) = backoff p ws s g"
    using assms by (intro star_cls_backoff) simp_all
  moreover have "ms (Cls A) fl = cls_run fl A" by (rule ext) simp
  ultimately show ?thesis by (simp add: rest_len_def)
qed

lemma ms_Plus_cls:
  assumes "in_cset fl A c" "list_all (in_cset fl A) ws" and "s = [] \<or> \<not> in_cset fl A (hd s)"
  shows "ms (Plus (Cls A)) fl (p, c # ws @ s, g) = backoff (Some c) ws s g"
proof -
  have "star_run (cls_run fl A) (length (ws @ s)) (Some c, ws @ s, g) = backoff (Some c) ws s g"
    using assms by (intro star_cls_backoff) simp_all
  moreover have "ms (Cls A) fl = cls_run fl A" by (rule ext) simp
  ultimately show ?thesis using assms(1) by (simp add: rest_len_def)
qed

lemma ms_Plus_cls_none:
  "s = [] \<or> \<not> in_cset fl A (hd s) \<Longrightarrow> ms (Plus (Cls A)) fl (p, s, g) = []"
  by (cases s) auto

lemma first_Star_cls:
  assumes "list_all (in_cset fl A) ws" and "s = [] \<or> \<not> in_cset fl A (hd s)"
  shows "first (Star (Cls A)) fl (p, ws @ s, g) (last_opt p ws, s, g)"
  using backoff_hd [of p ws s g] ms_Star_cls [OF assms, of p g] by (simp add: first_def)

lemma first_Plus_cls:
  assumes "ws \<noteq> []" "list_all (in_cset fl A) ws" and "s = [] \<or> \<not> in_cset fl A (hd s)"
  shows "first (Plus (Cls A)) fl (p, ws @ s, g) (last_opt p ws, s, g)"
proof -
  obtain c ws' where ws: "ws = c # ws'" using assms(1) by (cases ws) auto
  then have "ms (Plus (Cls A)) fl (p, ws @ s, g) = backoff (Some c) ws' s g"
    using ms_Plus_cls [of fl A c ws' s p g] assms by simp
  then show ?thesis using backoff_hd [of "Some c" ws' s g] ws by (simp add: first_def)
qed

section \<open>The line scan\<close>

lemma in_create_table_open_table:
  "in_create_table (open_table st l) = (in_create_table st \<or> str_in ''CREATE TABLE'' (upper l))"
  by (simp add: open_table_def)

lemma open_table_keeps:
  "new_lines (open_table st l) = new_lines st"
  "foreign_keys (open_table st l) = foreign_keys st"
  by (simp_all add: open_table_def)

lemma close_table_keeps:
  "new_lines (close_table st l) = new_lines st"
  "foreign_keys (close_table st l) = foreign_keys st"
  by (simp_all add: close_table_def)


lemma record_fk_appends: "\<exists>new. foreign_keys (record_fk st l) = foreign_keys st @ new"
  by (simp add: record_fk_def split: option.splits)

lemma scan_line_appends: "\<exists>new. foreign_keys (scan_line st l) = foreign_keys st @ new"
proof -
  obtain new where "foreign_keys (record_fk (open_table st l) l) = foreign_keys st @ new"
    using record_fk_appends [of "open_table st l" l] by (auto simp add: open_table_keeps)
  then show ?thesis
    by (simp add: scan_line_def Let_def open_table_keeps close_table_keeps)
qed



lemma foldl_append_stmts: "foldl (\<lambda>acc k. acc @ [f k]) acc ks = acc @ map f ks"
  by (induction ks arbitrary: acc) simp_all

lemma join_lines_cons: "join_lines (l # ls) = l @ concat (map (\<lambda>x. nl # x) ls)"
  by (induction ls arbitrary: l) simp_all




text \<open>
  \<^bold>\<open>C7\<close>. With no record nothing is appended. Otherwise the text gets the comment line of
  the block and then, each on a line of its own, one \<^verbatim>\<open>ALTER TABLE\<close> statement for each
  record, in the order of the list; \<open>fk_stmt\<close> names the table, the constraint, the
  columns, the referenced table and columns and the actions of its record. The list is in
  the order of discovery: scanning one more line leaves the records found so far in place
  and adds behind them.
\<close>

theorem add_foreign_keys_block:
  "add_foreign_keys content (foreign_keys st) =
     (if foreign_keys st = [] then content
      else content @ fk_header @ concat (map (\<lambda>k. nl # fk_stmt k) (foreign_keys st))) \<and>
   prefix (foreign_keys st) (foreign_keys (scan_line st line))"
proof -
  obtain new where "foreign_keys (scan_line st line) = foreign_keys st @ new"
    using scan_line_appends by blast
  then show ?thesis
    by (simp add: add_foreign_keys_def foldl_append_stmts join_lines_cons comp_def)
qed

theorem add_foreign_keys_block_witness:
  "add_foreign_keys ''x'' [] = ''x'' \<and>
   add_foreign_keys ''x'' [ex_fk_record] =
     ''x'' @ fk_header @ [nl] @ ''ALTER TABLE '' @ [dq] @ ''t'' @ [dq] @ '' ADD CONSTRAINT '' @
     [dq] @ ''c'' @ [dq] @ '' FOREIGN KEY (a) REFERENCES '' @ [dq] @ ''u'' @ [dq] @
     '' (id) ON DELETE CASCADE;''"
  using add_foreign_keys_block [of "''x''" scan_init "[]"]
    add_foreign_keys_block [of "''x''" "scan_init\<lparr>foreign_keys := [ex_fk_record]\<rparr>" "[]"]
  by (simp add: fk_stmt_def scan_init_def ex_fk_record_def)



section \<open>Secondary-index lines\<close>

lemma lower_chr_k: "lower_chr c = CHR ''k'' \<Longrightarrow> c = CHR ''k'' \<or> c = CHR ''K''"
  by (auto simp add: lower_chr_def uppers_def lowers_def split: if_splits)

lemma not_space_dq: "\<not> is_space dq"
  by (simp add: is_space_def spaces_def)

lemma key_rx_matches:
  assumes "list_all is_space ws" and "map lower_chr kw = ''key''"
    and "ws' \<noteq> []" and "list_all is_space ws'"
  shows "re_match key_rx IGNORECASE (ws @ kw @ ws' @ dq # rest) \<noteq> None"
proof -
  obtain k e y where kw: "kw = [k, e, y]"
    and k: "lower_chr k = CHR ''k''" and e: "lower_chr e = CHR ''e''" and y: "lower_chr y = CHR ''y''"
    using assms(2) by (auto simp add: map_eq_Cons_conv)
  have nk: "\<not> is_space k"
    using lower_chr_k [OF k] by (auto simp add: is_space_def spaces_def)
  let ?fl = IGNORECASE
  have 1: "first (Star (Cls Space)) ?fl (None, ws @ (kw @ ws' @ dq # rest), [])
             (last_opt None ws, kw @ ws' @ dq # rest, [])"
    using assms(1) nk kw by (intro first_Star_cls) (simp_all add: list_all_iff)
  have "list_all2 (chr_eq ?fl) ''KEY'' kw"
    using kw k e y by (simp add: chr_eq_def IGNORECASE_def lower_chr_def uppers_def lowers_def)
  then have 2: "first (Lit ''KEY'') ?fl (last_opt None ws, kw @ (ws' @ dq # rest), [])
             (last_opt (last_opt None ws) kw, ws' @ dq # rest, [])"
    by (rule first_Lit)
  have 3: "first (Plus (Cls Space)) ?fl (last_opt (last_opt None ws) kw, ws' @ (dq # rest), [])
             (last_opt (last_opt (last_opt None ws) kw) ws', dq # rest, [])"
    using assms(3,4) not_space_dq by (intro first_Plus_cls) (simp_all add: list_all_iff)
  have "list_all2 (chr_eq ?fl) [dq] [dq]" by (simp add: chr_eq_def)
  then have 4: "first (Lit [dq]) ?fl (last_opt (last_opt (last_opt None ws) kw) ws', [dq] @ rest, [])
             (last_opt (last_opt (last_opt (last_opt None ws) kw) ws') [dq], rest, [])"
    by (rule first_Lit)
  have "first key_rx ?fl (None, ws @ kw @ ws' @ dq # rest, [])
          (last_opt (last_opt (last_opt (last_opt None ws) kw) ws') [dq], rest, [])"
    unfolding key_rx_def seqs.simps
    using 1 2 3 4 by (auto intro!: first_Seq)
  then show ?thesis
    by (simp add: re_match_def match_here_first)
qed

text \<open>
  \<^bold>\<open>C5\<close>, as the code has it. Inside an open table definition, a line that starts, after
  optional white space, with \<^verbatim>\<open>KEY\<close> (in any letter case), white space and a double quote
  is left out of the output.
\<close>

theorem key_line_dropped:
  assumes "in_create_table st"
    and "list_all is_space ws" and "map lower_chr kw = ''key''"
    and "ws' \<noteq> []" and "list_all is_space ws'"
  shows "new_lines (scan_line st (ws @ kw @ ws' @ dq # rest)) = new_lines st"
  using key_rx_matches [OF assms(2-5), of rest] assms(1)
  by (simp add: scan_line_def Let_def in_create_table_open_table open_table_keeps
      record_fk_def split: option.splits)

theorem key_line_dropped_witness:
  "in_create_table (scan_init\<lparr>in_create_table := True\<rparr>) \<and> list_all is_space ''  '' \<and>
   map lower_chr ''KEY'' = ''key'' \<and> '' '' \<noteq> [] \<and> list_all is_space '' '' \<and>
   new_lines (scan_line (scan_init\<lparr>in_create_table := True\<rparr>)
     (''  '' @ ''KEY'' @ '' '' @ dq # ''k'' @ [dq] @ '' ('' @ [dq] @ ''a'' @ [dq] @ ''),'')) = []"
proof -
  have h1: "in_create_table (scan_init\<lparr>in_create_table := True\<rparr>)" by simp
  have h2: "list_all is_space ''  ''" by code_simp
  have h3: "map lower_chr ''KEY'' = ''key''" by code_simp
  have h4: "'' '' \<noteq> []" by simp
  have h5: "list_all is_space '' ''" by code_simp
  show ?thesis
    using key_line_dropped [OF h1 h2 h3 h4 h5] h1 h2 h3 h5 by (simp add: scan_init_def)
qed

text \<open>
  \<^bold>\<open>C5\<close>, as stated, fails for the unique-key variant: the pattern is anchored at the
  start of the line, so a \<^verbatim>\<open>UNIQUE KEY\<close> line of an open table definition is passed on.
\<close>

theorem unique_key_line_kept_counterexample:
  "in_create_table (scan (take 2 ex_unique_table)) \<and>
   new_lines (scan ex_unique_table) = ex_unique_table"
  by code_simp

section \<open>The scenario of one table with one foreign key\<close>






section \<open>Patterns that do not look behind\<close>
















section \<open>Quotes in insert statements\<close>





















section \<open>The cleanup after the scan\<close>








































end
